theory Spec2Isabelle
  imports Main "HOL-Library.Sublist"
begin

section \<open>JavaScript strings\<close>

text \<open>
  A JavaScript string is a sequence of UTF-16 code units. The model keeps the strings whose
  code units are below 256: a \<^typ>\<open>char\<close> is the code unit, so \<^typ>\<open>string\<close> holds ASCII
  and the Latin-1 supplement. Every string literal of the two source files is ASCII, and
  \<open>String.prototype.toLowerCase\<close> maps this range into itself, one code unit to one code unit.
\<close>

definition lower_char :: "char \<Rightarrow> char" where
  \<comment> \<open>\<open>A\<close>..\<open>Z\<close> and U+00C0..U+00DE without the multiplication sign U+00D7 move up by 32.\<close>
  "lower_char c =
     (let n = (of_char c :: nat)
      in if (65 \<le> n \<and> n \<le> 90) \<or> (192 \<le> n \<and> n \<le> 222 \<and> n \<noteq> 215)
         then char_of (n + 32) else c)"

definition toLowerCase :: "string \<Rightarrow> string" where
  "toLowerCase s = map lower_char s"

text \<open>\<open>text.includes(keyword)\<close>: the keyword starts at some position of the text.\<close>

fun str_includes :: "string \<Rightarrow> string \<Rightarrow> bool" where
  "str_includes [] keyword = (keyword = [])"
| "str_includes (c # cs) keyword = (prefix keyword (c # cs) \<or> str_includes cs keyword)"

text \<open>\<open>xs.join(sep)\<close> on an array of strings.\<close>

fun join :: "string \<Rightarrow> string list \<Rightarrow> string" where
  "join sep [] = []"
| "join sep [x] = x"
| "join sep (x # y # ys) = x @ sep @ join sep (y # ys)"

text \<open>
  The class \<open>\s\<close> of a regular expression, on code units below 256: tab, line feed, vertical
  tab, form feed, carriage return, space and the no-break space U+00A0.
\<close>

definition is_space :: "char \<Rightarrow> bool" where
  "is_space c = ((of_char c :: nat) \<in> {9, 10, 11, 12, 13, 32, 160})"

text \<open>
  \<open>/next\s+week/\<close> anchored at the start of \<open>s\<close>: \<open>next\<close>, one white-space unit at least, then
  \<open>week\<close>. The greedy \<open>\s+\<close> takes every white-space unit; giving one back never helps, since
  the unit given back is not \<open>w\<close>.
\<close>

definition next_week_here :: "string \<Rightarrow> bool" where
  "next_week_here s =
     (prefix ''next'' s \<and>
      (case drop 4 s of
         [] \<Rightarrow> False
       | c # r \<Rightarrow> is_space c \<and> prefix ''week'' (dropWhile is_space r)))"

text \<open>\<open>/next\s+week/.test(text)\<close>: the match may start at any position.\<close>

fun test_next_week :: "string \<Rightarrow> bool" where
  "test_next_week [] = False"
| "test_next_week (c # cs) = (next_week_here (c # cs) \<or> test_next_week cs)"

section \<open>Connector rules and the rule-based analyzer\<close>

text \<open>
  \<open>connectorRules\<close> is read from \<open>intentRules.json\<close> when the process starts, and is the table
  below when the file cannot be read. The file is not part of the sources, so the analyzer
  takes the table as an argument: the entries of the object in the order of \<open>Object.keys\<close>,
  each connector with its array of keywords.
\<close>

type_synonym rule_table = "(string \<times> string list) list"

definition default_connectorRules :: rule_table where
  "default_connectorRules =
     [(''google_calendar'', [''meeting'', ''schedule'', ''calendar'', ''free'', ''busy'']),
      (''aws_monitor'', [''server'', ''status'', ''deployment'', ''aws'', ''error'', ''uptime'']),
      (''notion_docs'', [''note'', ''decision'', ''project'', ''document'', ''summary'']),
      (''github_repo'', [''pull request'', ''repo'', ''commit'', ''issue'']),
      (''stripe_finance'', [''payment'', ''invoice'', ''balance'', ''transaction'']),
      (''fitbit_health'', [''steps'', ''sleep'', ''fitness'', ''health''])]"

record 'c intent =
  connectors :: "'c list"
  timeHint :: "string option"

text \<open>\<open>connectorRules[conn].some((keyword) => text.includes(keyword))\<close>\<close>

definition rule_fires :: "rule_table \<Rightarrow> string \<Rightarrow> string \<Rightarrow> bool" where
  "rule_fires connectorRules text conn =
     (case map_of connectorRules conn of
        None \<Rightarrow> False
      | Some keywords \<Rightarrow> list_ex (\<lambda>keyword. str_includes text keyword) keywords)"

definition extract_timeHint :: "string \<Rightarrow> string option" where
  "extract_timeHint text =
     (if str_includes text ''today'' then Some ''today''
      else if str_includes text ''tomorrow'' then Some ''tomorrow''
      else if test_next_week text then Some ''next_week''
      else None)"

definition ruleBasedAnalyzer :: "rule_table \<Rightarrow> string \<Rightarrow> string intent" where
  "ruleBasedAnalyzer connectorRules query =
     (let text = toLowerCase query;
          conns = filter (rule_fires connectorRules text) (map fst connectorRules)
      in \<lparr>connectors = (if conns \<noteq> [] then conns else [''semantic_search'']),
          timeHint = extract_timeHint text\<rparr>)"

text \<open>
  The specification's relation between a trigger and a query, in its own words: the trigger
  occurs in the query when the case of letters is ignored on both sides.
\<close>

definition occurs_ignoring_case :: "string \<Rightarrow> string \<Rightarrow> bool" where
  "occurs_ignoring_case trigger query = sublist (toLowerCase trigger) (toLowerCase query)"

section \<open>Property lookup on an object literal\<close>

text \<open>
  \<open>obj[key]\<close> on an object written as a literal reads the object's own property when it has
  one of that name, and otherwise the property of that name of \<open>Object.prototype\<close>, whose
  members are functions (and, for \<open>__proto__\<close>, the prototype object itself): all of them
  are truthy, and none of them is an array or a string.
\<close>

definition Object_prototype :: "string list" where
  "Object_prototype =
     [''constructor'', ''__defineGetter__'', ''__defineSetter__'', ''hasOwnProperty'',
      ''__lookupGetter__'', ''__lookupSetter__'', ''isPrototypeOf'', ''propertyIsEnumerable'',
      ''toString'', ''valueOf'', ''__proto__'', ''toLocaleString'']"

datatype 'a property = Own 'a | Inherited string | Undefined

definition get_property :: "(string \<times> 'a) list \<Rightarrow> string \<Rightarrow> 'a property" where
  "get_property obj key =
     (case map_of obj key of
        Some v \<Rightarrow> Own v
      | None \<Rightarrow> if key \<in> set Object_prototype then Inherited key else Undefined)"

datatype error = TypeError

section \<open>The LLM-based analyzer and the hybrid analyzer\<close>

text \<open>A value that \<open>JSON.parse\<close> returns. Numbers are kept when they are integers.\<close>

datatype json =
    JNull
  | JBool bool
  | JNum int
  | JStr string
  | JArr "json list"
  | JObj "(string \<times> json) list"

text \<open>
  What the \<open>try\<close> block of \<open>llmAnalyzer\<close> meets, statement by statement:
  \<^item> \<open>Request_failed\<close>: the promise of \<open>openai.chat.completions.create\<close> rejects;
  \<^item> \<open>No_message_text\<close>: the response has no string at \<open>choices[0].message.content\<close>, and
    reading it or calling \<open>trim\<close> throws;
  \<^item> \<open>Invalid_JSON\<close>: the trimmed content is not a JSON text, and \<open>JSON.parse\<close> throws;
  \<^item> \<open>Parses_to v\<close>: \<open>JSON.parse\<close> returns \<open>v\<close>.
\<close>

datatype completion = Request_failed | No_message_text | Invalid_JSON | Parses_to json

text \<open>
  The first argument stands for the remote model: the outcome of the request for a query.
  The \<open>console.error\<close> line of the \<open>catch\<close> block is left out.
\<close>

definition llmAnalyzer :: "(string \<Rightarrow> completion) \<Rightarrow> string \<Rightarrow> json" where
  "llmAnalyzer openai query =
     (case openai query of
        Parses_to parsed \<Rightarrow> parsed
      | Request_failed \<Rightarrow> JArr []
      | No_message_text \<Rightarrow> JArr []
      | Invalid_JSON \<Rightarrow> JArr [])"

text \<open>
  \<open>...llmConnectors\<close> iterates the value: an array gives its elements, a string its
  characters, and \<open>null\<close>, a boolean, a number or a plain object is not iterable.
\<close>

fun spread :: "json \<Rightarrow> error + json list" where
  "spread (JArr xs) = Inr xs"
| "spread (JStr s) = Inr (map (\<lambda>c. JStr [c]) s)"
| "spread JNull = Inl TypeError"
| "spread (JBool b) = Inl TypeError"
| "spread (JNum n) = Inl TypeError"
| "spread (JObj kvs) = Inl TypeError"

text \<open>
  A \<open>Set\<close> compares by SameValueZero: primitives by value, arrays and objects by identity.
  Every array and object inside a parsed value is a fresh one, so two of them are never the
  same member.
\<close>

fun same_value_zero :: "json \<Rightarrow> json \<Rightarrow> bool" where
  "same_value_zero JNull JNull = True"
| "same_value_zero (JBool a) (JBool b) = (a = b)"
| "same_value_zero (JNum a) (JNum b) = (a = b)"
| "same_value_zero (JStr a) (JStr b) = (a = b)"
| "same_value_zero _ _ = False"

text \<open>The values that a \<open>Set\<close> compares by value.\<close>

definition primitive :: "json \<Rightarrow> bool" where
  "primitive v = (case v of JArr xs \<Rightarrow> False | JObj kvs \<Rightarrow> False | _ \<Rightarrow> True)"

definition set_add :: "json list \<Rightarrow> json \<Rightarrow> json list" where
  "set_add members x = (if list_ex (same_value_zero x) members then members else members @ [x])"

text \<open>\<open>[...new Set(xs)]\<close>: the members in the order of their first insertion.\<close>

definition new_Set :: "json list \<Rightarrow> json list" where
  "new_Set xs = foldl set_add [] xs"

definition analyzeIntent ::
  "rule_table \<Rightarrow> (string \<Rightarrow> completion) \<Rightarrow> string \<Rightarrow> error + json intent" where
  "analyzeIntent connectorRules openai query =
     (let ruleResult = ruleBasedAnalyzer connectorRules query;
          llmConnectors = llmAnalyzer openai query
      in case spread llmConnectors of
           Inl e \<Rightarrow> Inl e
         | Inr elems \<Rightarrow>
             Inr \<lparr>connectors = new_Set (map JStr (connectors ruleResult) @ elems),
                  timeHint = timeHint ruleResult\<rparr>)"

section \<open>The connector fetch stage\<close>

text \<open>The object \<open>data\<close> of \<open>fetchConnector\<close>; \<open>timeHint || "upcoming"\<close> fills the first entry.\<close>

definition data :: "string option \<Rightarrow> (string \<times> string) list" where
  "data hint =
     [(''google_calendar'',
         ''Checked calendar for ''
         @ (case hint of None \<Rightarrow> ''upcoming'' | Some h \<Rightarrow> if h = [] then ''upcoming'' else h)
         @ '' meetings.''),
      (''aws_monitor'', ''Fetched server health metrics from AWS.''),
      (''notion_docs'', ''Retrieved recent meeting notes and project updates.''),
      (''github_repo'', ''Fetched latest pull requests and commits.''),
      (''stripe_finance'', ''Fetched balance and transaction summaries.''),
      (''fitbit_health'', ''Fetched recent step count and sleep stats.''),
      (''semantic_search'', ''Performed general semantic search for context.'')]"

text \<open>
  The value of \<open>summary\<close>: a text, or the member of \<open>Object.prototype\<close> that the lookup
  reached.
\<close>

datatype summary_value = Text string | Prototype_member string

record connector_context =
  connector :: string
  summary :: summary_value

text \<open>
  Connector identifiers are strings here. \<open>user_id\<close> and \<open>query\<close> are passed and not read.
\<close>

definition fetchConnector ::
  "string \<Rightarrow> 'u \<Rightarrow> string \<Rightarrow> string option \<Rightarrow> connector_context" where
  "fetchConnector conn user_id query hint =
     \<lparr>connector = conn,
      summary =
        (case get_property (data hint) conn of
           Own s \<Rightarrow> if s = [] then Text ''No data available'' else Text s
         | Inherited m \<Rightarrow> Prototype_member m
         | Undefined \<Rightarrow> Text ''No data available'')\<rparr>"

text \<open>
  \<open>Promise.all(intent.connectors.map((conn) => fetchConnector(...)))\<close>: the results in the
  order of the connectors, whatever the order in which the promises settle.
\<close>

definition fetch_all :: "string intent \<Rightarrow> 'u \<Rightarrow> string \<Rightarrow> connector_context list" where
  "fetch_all intent user_id query =
     map (\<lambda>conn. fetchConnector conn user_id query (timeHint intent)) (connectors intent)"

section \<open>The context manager\<close>

definition MOCK_DOC_REPO :: "(string \<times> string list) list" where
  "MOCK_DOC_REPO =
     [(''continuous deployment'',
        [''CD is the practice of automatically deploying code changes to production. The biggest challenge in 2025 is typically security validation within the automated pipeline.'',
         ''A common bottleneck is integration testing across microservices, requiring complex environment orchestration.'',
         ''Organizational challenges, specifically lack of trust between Dev and Ops, often prevent full CD adoption.'']),
      (''machine learning'',
        [''MLOps teams often struggle with model drift and continuous retraining pipeline complexity.'']),
      (''cloud migration'',
        [''Cost optimization and vendor lock-in are primary risks when migrating to the cloud.''])]"

text \<open>The console is the one piece of state the module writes: lines are appended to it.\<close>

datatype console_line = Log string | Warn string

type_synonym console = "console_line list"

record retrieved_context =
  contextText :: string
  useSearchTool :: bool

text \<open>
  The \<open>for\<close> loop of \<open>mockRetrieveContext\<close>, with \<open>relevantChunks\<close> as accumulator. A topic
  that names a member of \<open>Object.prototype\<close> finds a truthy value without \<open>slice\<close>, and the
  call throws.
\<close>

fun collect_chunks :: "string list \<Rightarrow> string list \<Rightarrow> error + string list" where
  "collect_chunks [] relevantChunks = Inr relevantChunks"
| "collect_chunks (topic # topics) relevantChunks =
     (case get_property MOCK_DOC_REPO (toLowerCase topic) of
        Undefined \<Rightarrow> collect_chunks topics relevantChunks
      | Own sourceData \<Rightarrow> collect_chunks topics (relevantChunks @ take 2 sourceData)
      | Inherited m \<Rightarrow> Inl TypeError)"

definition separator :: string where
  "separator = ''\<newline>---\<newline>''"

definition mockRetrieveContext ::
  "string list \<Rightarrow> string \<Rightarrow> console \<Rightarrow> error + (retrieved_context \<times> console)" where
  "mockRetrieveContext inferredTopics initialQuery con =
     (let con1 = con @ [Log (''[Context Manager] Retrieving context for inferred topics: ''
                              @ join '', '' inferredTopics)]
      in case collect_chunks inferredTopics [] of
           Inl e \<Rightarrow> Inl e
         | Inr relevantChunks \<Rightarrow>
             if str_includes initialQuery ''right now''
             then Inr (\<lparr>contextText = join separator relevantChunks, useSearchTool = True\<rparr>,
                       con1 @ [Log ''[Context Manager] Query indicates real-time data needed, enabling Google Search tool.''])
             else Inr (\<lparr>contextText = join separator relevantChunks, useSearchTool = False\<rparr>,
                       con1))"

text \<open>The template literal of step 4, cut at its two interpolations.\<close>

definition template_head :: string where
  "template_head =
     ''\<newline>You are a **Pragmatic and Solution-Oriented DevOps Consultant**. Your primary intent is to provide **actionable recommendations and expert analysis**.\<newline>\<newline>Based on the following retrieved context, answer the user's query.\<newline>\<newline>INSTRUCTION SET:\<newline>1.  Analyze the provided information (CONTEXT and USER QUERY).\<newline>2.  If possible, identify a root cause or key challenge.\<newline>3.  Generate your response as a concise summary followed by a bulleted list of 2-3 specific, actionable steps or recommendations.\<newline>\<newline>RETRIEVED CONTEXT:\<newline>---\<newline>''"

definition template_middle :: string where
  "template_middle = ''\<newline>---\<newline>\<newline>USER QUERY:\<newline>''"

definition template_tail :: string where
  "template_tail = ''\<newline>\<newline>Generate your response now.\<newline>    ''"

definition render_prompt :: "string \<Rightarrow> string \<Rightarrow> string" where
  "render_prompt context userQuery =
     template_head @ context @ template_middle @ userQuery @ template_tail"

datatype tool = Google_search

record augmented_prompt =
  finalPrompt :: string
  tools :: "tool list option"

text \<open>Step 1: the two \<open>if\<close> statements that push topic labels.\<close>

definition infer_topics :: "string \<Rightarrow> string list" where
  "infer_topics userQuery =
     (if str_includes userQuery ''deployment'' then [''Continuous Deployment''] else [])
     @ (if str_includes userQuery ''ML'' then [''Machine Learning''] else [])"

definition no_context_warning :: console_line where
  "no_context_warning =
     Warn ''[Context Manager] No specific domain context inferred. Relying on LLM's general knowledge and Search Tool.''"

text \<open>\<open>tools\<close> is \<open>None\<close> where the source leaves it \<open>undefined\<close>.\<close>

definition prepareContextualPrompt ::
  "string \<Rightarrow> console \<Rightarrow> error + (augmented_prompt \<times> console)" where
  "prepareContextualPrompt userQuery con =
     (let inferredTopics = infer_topics userQuery
      in if length inferredTopics = 0
         then Inr (\<lparr>finalPrompt = userQuery, tools = Some [Google_search]\<rparr>,
                   con @ [no_context_warning])
         else case mockRetrieveContext inferredTopics userQuery con of
                Inl e \<Rightarrow> Inl e
              | Inr (retrieved, con') \<Rightarrow>
                  Inr (\<lparr>finalPrompt = render_prompt (contextText retrieved) userQuery,
                        tools = (if useSearchTool retrieved then Some [Google_search] else None)\<rparr>,
                       con'))"

text \<open>
  The specification's retrieval, in its own words: for each topic, looked up in the table by
  its lower-cased label, up to the first two excerpts, in topic order; the context of a query
  is these chunks joined by the separator.
\<close>

definition topic_excerpts :: "string \<Rightarrow> string list" where
  "topic_excerpts topic =
     (case map_of MOCK_DOC_REPO (toLowerCase topic) of None \<Rightarrow> [] | Some excerpts \<Rightarrow> excerpts)"

definition chunks_for :: "string list \<Rightarrow> string list" where
  "chunks_for topics = concat (map (\<lambda>topic. take 2 (topic_excerpts topic)) topics)"

definition expected_context :: "string \<Rightarrow> string" where
  "expected_context query = join separator (chunks_for (infer_topics query))"

section \<open>Facts about the string operations\<close>

text \<open>\<open>includes\<close> is the contiguous-sublist relation of the library.\<close>

lemma str_includes_sublist: "str_includes s keyword = sublist keyword s"
  by (induction s) (auto simp: sublist_Cons_right)

lemma lower_char_idem: "lower_char (lower_char c) = lower_char c"
  by (auto simp: lower_char_def Let_def)

lemma toLowerCase_idem: "toLowerCase (toLowerCase s) = toLowerCase s"
  by (simp add: toLowerCase_def lower_char_idem)

lemma sublist_toLowerCase: "sublist k s \<Longrightarrow> sublist (toLowerCase k) (toLowerCase s)"
  unfolding toLowerCase_def by (rule map_mono_sublist)

lemma sublist_lowered_fixed:
  assumes "sublist k (toLowerCase s)"
  shows "toLowerCase k = k"
proof -
  from assms obtain p r where "toLowerCase s = p @ k @ r"
    by (auto simp: sublist_def)
  then have "toLowerCase (p @ k @ r) = p @ k @ r"
    by (metis toLowerCase_idem)
  then show ?thesis
    by (simp add: toLowerCase_def)
qed

lemma not_space_w: "\<not> is_space CHR ''w''"
  by (simp add: is_space_def)

lemma next_week_here_iff:
  "next_week_here s \<longleftrightarrow>
     (\<exists>ws post. s = ''next'' @ ws @ ''week'' @ post \<and> ws \<noteq> [] \<and> (\<forall>c\<in>set ws. is_space c))"
proof
  assume h: "next_week_here s"
  then obtain r where s: "s = ''next'' @ r"
    by (auto simp: next_week_here_def prefix_def)
  with h obtain c r' where r: "r = c # r'" and c: "is_space c"
    and p: "prefix ''week'' (dropWhile is_space r')"
    by (auto simp: next_week_here_def split: list.splits)
  from p obtain post where d: "dropWhile is_space r' = ''week'' @ post"
    by (auto simp: prefix_def)
  have "r' = takeWhile is_space r' @ ''week'' @ post"
    using d takeWhile_dropWhile_id [of is_space r'] by simp
  then have "s = ''next'' @ (c # takeWhile is_space r') @ ''week'' @ post"
    using s r by simp
  moreover have "\<forall>x\<in>set (c # takeWhile is_space r'). is_space x"
    using c by (auto dest: set_takeWhileD)
  ultimately show "\<exists>ws post. s = ''next'' @ ws @ ''week'' @ post \<and> ws \<noteq> [] \<and> (\<forall>c\<in>set ws. is_space c)"
    by blast
next
  assume "\<exists>ws post. s = ''next'' @ ws @ ''week'' @ post \<and> ws \<noteq> [] \<and> (\<forall>c\<in>set ws. is_space c)"
  then obtain ws post where s: "s = ''next'' @ ws @ ''week'' @ post"
    and ne: "ws \<noteq> []" and sp: "\<forall>c\<in>set ws. is_space c"
    by blast
  from ne obtain c ws' where ws: "ws = c # ws'"
    by (cases ws) auto
  have "dropWhile is_space (ws' @ ''week'' @ post) = dropWhile is_space (''week'' @ post)"
    using sp ws by (intro dropWhile_append2) auto
  also have "\<dots> = ''week'' @ post"
    using not_space_w by simp
  finally show "next_week_here s"
    using s ws sp by (simp add: next_week_here_def)
qed

lemma test_next_week_iff:
  "test_next_week s \<longleftrightarrow>
     (\<exists>pre ws post. s = pre @ ''next'' @ ws @ ''week'' @ post \<and> ws \<noteq> [] \<and> (\<forall>c\<in>set ws. is_space c))"
proof (induction s)
  case Nil
  then show ?case by simp
next
  case (Cons a s)
  show ?case
  proof
    assume "test_next_week (a # s)"
    then consider "next_week_here (a # s)" | "test_next_week s" by auto
    then show "\<exists>pre ws post. a # s = pre @ ''next'' @ ws @ ''week'' @ post \<and> ws \<noteq> [] \<and> (\<forall>c\<in>set ws. is_space c)"
    proof cases
      case 1
      then obtain ws post where "a # s = [] @ ''next'' @ ws @ ''week'' @ post" "ws \<noteq> []" "\<forall>c\<in>set ws. is_space c"
        unfolding next_week_here_iff by auto
      then show ?thesis by blast
    next
      case 2
      then obtain pre ws post where "s = pre @ ''next'' @ ws @ ''week'' @ post" "ws \<noteq> []" "\<forall>c\<in>set ws. is_space c"
        using Cons.IH by blast
      then have "a # s = (a # pre) @ ''next'' @ ws @ ''week'' @ post" by simp
      then show ?thesis using \<open>ws \<noteq> []\<close> \<open>\<forall>c\<in>set ws. is_space c\<close> by blast
    qed
  next
    assume "\<exists>pre ws post. a # s = pre @ ''next'' @ ws @ ''week'' @ post \<and> ws \<noteq> [] \<and> (\<forall>c\<in>set ws. is_space c)"
    then obtain pre ws post where e: "a # s = pre @ ''next'' @ ws @ ''week'' @ post"
      and w: "ws \<noteq> []" "\<forall>c\<in>set ws. is_space c" by blast
    show "test_next_week (a # s)"
    proof (cases pre)
      case Nil
      then have "next_week_here (a # s)"
        unfolding next_week_here_iff using e w by auto
      then show ?thesis by simp
    next
      case (Cons b pre')
      then have "s = pre' @ ''next'' @ ws @ ''week'' @ post" using e by simp
      then have "test_next_week s" using Cons.IH w by blast
      then show ?thesis by simp
    qed
  qed
qed

section \<open>The rule-based analyzer\<close>

lemma rule_fires_intro:
  assumes "map_of rules C = Some ts" and "t \<in> set ts" and "str_includes s t"
  shows "rule_fires rules s C"
  using assms by (auto simp: rule_fires_def list_ex_iff)

lemma connectors_ruleBasedAnalyzer_fires:
  assumes "map_of rules C = Some ts" and "t \<in> set ts" and "str_includes (toLowerCase q) t"
  shows "C \<in> set (connectors (ruleBasedAnalyzer rules q))"
proof -
  have "C \<in> set (map fst rules)"
    using assms(1) by (metis map_of_SomeD fst_conv image_eqI set_map)
  moreover have "rule_fires rules (toLowerCase q) C"
    using assms by (rule rule_fires_intro)
  ultimately have in_filter: "C \<in> set (filter (rule_fires rules (toLowerCase q)) (map fst rules))"
    by simp
  then have "filter (rule_fires rules (toLowerCase q)) (map fst rules) \<noteq> []"
    by (metis empty_iff empty_set)
  with in_filter show ?thesis
    by (simp add: ruleBasedAnalyzer_def Let_def)
qed

lemma rule_fires_occurs:
  assumes "rule_fires rules (toLowerCase q) C"
  shows "\<exists>ts t. map_of rules C = Some ts \<and> t \<in> set ts \<and> occurs_ignoring_case t q"
proof -
  from assms obtain ts t where m: "map_of rules C = Some ts" and t: "t \<in> set ts"
    and i: "sublist t (toLowerCase q)"
    by (auto simp: rule_fires_def list_ex_iff str_includes_sublist split: option.splits)
  from i have "toLowerCase t = t" by (rule sublist_lowered_fixed)
  with i have "occurs_ignoring_case t q" by (simp add: occurs_ignoring_case_def)
  with m t show ?thesis by blast
qed

lemma default_triggers_all_lower:
  "list_all (\<lambda>t. toLowerCase t = t) (concat (map snd default_connectorRules))"
  by code_simp

lemma default_triggers_lower:
  assumes "map_of default_connectorRules C = Some ts" and "t \<in> set ts"
  shows "toLowerCase t = t"
proof -
  have "(C, ts) \<in> set default_connectorRules"
    using assms(1) by (rule map_of_SomeD)
  then have "t \<in> set (concat (map snd default_connectorRules))"
    using assms(2) by force
  then show ?thesis
    using default_triggers_all_lower unfolding list_all_iff by blast
qed

text \<open>
  Claim C3, as the code has it. The analyzer lower-cases the query and leaves the triggers
  as they are written. So connector \<open>C\<close> is in the result whenever a trigger of \<open>C\<close> that is
  written in lower case occurs in the query with the case of letters ignored; every trigger
  of the built-in table is in lower case, and for that table the condition on the trigger
  falls away. When no trigger of any connector occurs in the query, case ignored, the result
  is exactly \<open>["semantic_search"]\<close>. A connector's triggers are the array that the lookup
  \<open>connectorRules[conn]\<close> finds.
\<close>

theorem ruleBasedAnalyzer_connectors:
  "(map_of rules C = Some ts \<and> t \<in> set ts \<and> toLowerCase t = t \<and> occurs_ignoring_case t q
      \<longrightarrow> C \<in> set (connectors (ruleBasedAnalyzer rules q)))
   \<and> (map_of default_connectorRules C = Some ts \<and> t \<in> set ts \<and> occurs_ignoring_case t q
      \<longrightarrow> C \<in> set (connectors (ruleBasedAnalyzer default_connectorRules q)))
   \<and> ((\<forall>C ts t. map_of rules C = Some ts \<and> t \<in> set ts \<longrightarrow> \<not> occurs_ignoring_case t q)
      \<longrightarrow> connectors (ruleBasedAnalyzer rules q) = [''semantic_search''])"
proof (intro conjI impI)
  assume h: "map_of rules C = Some ts \<and> t \<in> set ts \<and> toLowerCase t = t \<and> occurs_ignoring_case t q"
  then have "str_includes (toLowerCase q) t"
    by (metis occurs_ignoring_case_def str_includes_sublist)
  with h show "C \<in> set (connectors (ruleBasedAnalyzer rules q))"
    using connectors_ruleBasedAnalyzer_fires by blast
next
  assume h: "map_of default_connectorRules C = Some ts \<and> t \<in> set ts \<and> occurs_ignoring_case t q"
  then have "toLowerCase t = t" using default_triggers_lower by blast
  with h have "str_includes (toLowerCase q) t"
    by (metis occurs_ignoring_case_def str_includes_sublist)
  with h show "C \<in> set (connectors (ruleBasedAnalyzer default_connectorRules q))"
    using connectors_ruleBasedAnalyzer_fires by blast
next
  assume h: "\<forall>C ts t. map_of rules C = Some ts \<and> t \<in> set ts \<longrightarrow> \<not> occurs_ignoring_case t q"
  have "filter (rule_fires rules (toLowerCase q)) (map fst rules) = []"
    unfolding filter_empty_conv using h rule_fires_occurs by blast
  then show "connectors (ruleBasedAnalyzer rules q) = [''semantic_search'']"
    by (simp add: ruleBasedAnalyzer_def Let_def)
qed

text \<open>
  Claim C3 as written fails for a table with a trigger in upper case: with the rule
  \<open>aws_monitor: ["AWS"]\<close> the query \<open>AWS status\<close> contains the trigger, and the lower-cased
  text \<open>aws status\<close> does not, so the connector is left out.
\<close>

theorem upper_case_trigger_never_fires:
  "map_of [(''aws_monitor'', [''AWS''])] ''aws_monitor'' = Some [''AWS'']
   \<and> ''AWS'' \<in> set [''AWS'']
   \<and> occurs_ignoring_case ''AWS'' ''AWS status''
   \<and> ''aws_monitor'' \<notin> set (connectors (ruleBasedAnalyzer [(''aws_monitor'', [''AWS''])] ''AWS status''))"
  unfolding occurs_ignoring_case_def by code_simp

text \<open>The three parts of \<open>ruleBasedAnalyzer_connectors\<close> at concrete tables and queries.\<close>

theorem ruleBasedAnalyzer_connectors_witness:
  "''aws_monitor'' \<in> set (connectors (ruleBasedAnalyzer [(''aws_monitor'', [''aws''])] ''Is AWS up?''))
   \<and> ''aws_monitor'' \<in> set (connectors (ruleBasedAnalyzer default_connectorRules ''Is AWS up?''))
   \<and> connectors (ruleBasedAnalyzer [(''aws_monitor'', [''aws''])] ''hello'') = [''semantic_search'']"
proof -
  have a: "map_of [(''aws_monitor'', [''aws''])] ''aws_monitor'' = Some [''aws'']
      \<and> ''aws'' \<in> set [''aws''] \<and> toLowerCase ''aws'' = ''aws''
      \<and> occurs_ignoring_case ''aws'' ''Is AWS up?''"
    unfolding occurs_ignoring_case_def by code_simp
  have b: "map_of default_connectorRules ''aws_monitor'' = Some [''server'', ''status'', ''deployment'', ''aws'', ''error'', ''uptime'']
      \<and> ''aws'' \<in> set [''server'', ''status'', ''deployment'', ''aws'', ''error'', ''uptime'']
      \<and> occurs_ignoring_case ''aws'' ''Is AWS up?''"
    unfolding occurs_ignoring_case_def by code_simp
  have c: "\<forall>C ts t. map_of [(''aws_monitor'', [''aws''])] C = Some ts \<and> t \<in> set ts
      \<longrightarrow> \<not> occurs_ignoring_case t ''hello''"
  proof (intro allI impI)
    fix C ts t
    assume "map_of [(''aws_monitor'', [''aws''])] C = Some ts \<and> t \<in> set ts"
    then have "t = ''aws''" by (auto split: if_splits)
    moreover have "\<not> occurs_ignoring_case ''aws'' ''hello''"
      unfolding occurs_ignoring_case_def by code_simp
    ultimately show "\<not> occurs_ignoring_case t ''hello''" by simp
  qed
  show ?thesis
    using ruleBasedAnalyzer_connectors [of "[(''aws_monitor'', [''aws''])]" "''aws_monitor''" "[''aws'']" "''aws''" "''Is AWS up?''"]
      ruleBasedAnalyzer_connectors [of _ "''aws_monitor''" "[''server'', ''status'', ''deployment'', ''aws'', ''error'', ''uptime'']" "''aws''" "''Is AWS up?''"]
      ruleBasedAnalyzer_connectors [of "[(''aws_monitor'', [''aws''])]" _ _ _ "''hello''"]
      a b c by blast
qed

section \<open>Time hints\<close>

lemma extract_timeHint_spec:
  "extract_timeHint s =
     (if sublist ''today'' s then Some ''today''
      else if sublist ''tomorrow'' s then Some ''tomorrow''
      else if (\<exists>pre ws post. s = pre @ ''next'' @ ws @ ''week'' @ post
                 \<and> ws \<noteq> [] \<and> (\<forall>c\<in>set ws. is_space c))
      then Some ''next_week''
      else None)"
  unfolding extract_timeHint_def str_includes_sublist test_next_week_iff ..

lemma timeHint_ruleBasedAnalyzer:
  "timeHint (ruleBasedAnalyzer rules q) = extract_timeHint (toLowerCase q)"
  by (simp add: ruleBasedAnalyzer_def Let_def)

lemma today_lower: "toLowerCase ''today'' = ''today''"
  by code_simp

text \<open>
  Claim C5. The time hint is that of the first rule that matches the lower-cased query:
  \<open>today\<close> as a substring, else \<open>tomorrow\<close> as a substring, else \<open>next\<close>, one or more
  white-space characters and \<open>week\<close> somewhere in the text, else no hint. So a query that
  contains both \<open>today\<close> and \<open>tomorrow\<close> gets \<open>today\<close>.
\<close>

theorem timeHint_first_match:
  "timeHint (ruleBasedAnalyzer rules q) =
     (if sublist ''today'' (toLowerCase q) then Some ''today''
      else if sublist ''tomorrow'' (toLowerCase q) then Some ''tomorrow''
      else if (\<exists>pre ws post. toLowerCase q = pre @ ''next'' @ ws @ ''week'' @ post
                 \<and> ws \<noteq> [] \<and> (\<forall>c\<in>set ws. is_space c))
      then Some ''next_week''
      else None)
   \<and> (sublist ''today'' q \<and> sublist ''tomorrow'' q
        \<longrightarrow> timeHint (ruleBasedAnalyzer rules q) = Some ''today'')"
proof (intro conjI impI)
  show "timeHint (ruleBasedAnalyzer rules q) =
     (if sublist ''today'' (toLowerCase q) then Some ''today''
      else if sublist ''tomorrow'' (toLowerCase q) then Some ''tomorrow''
      else if (\<exists>pre ws post. toLowerCase q = pre @ ''next'' @ ws @ ''week'' @ post
                 \<and> ws \<noteq> [] \<and> (\<forall>c\<in>set ws. is_space c))
      then Some ''next_week''
      else None)"
    unfolding timeHint_ruleBasedAnalyzer by (rule extract_timeHint_spec)
next
  assume "sublist ''today'' q \<and> sublist ''tomorrow'' q"
  then have "sublist (toLowerCase ''today'') (toLowerCase q)"
    using sublist_toLowerCase by blast
  then have "sublist ''today'' (toLowerCase q)"
    by (simp only: today_lower)
  then show "timeHint (ruleBasedAnalyzer rules q) = Some ''today''"
    unfolding timeHint_ruleBasedAnalyzer extract_timeHint_spec by simp
qed

text \<open>\<open>timeHint_first_match\<close> at a query with both words, and at one that only the regular
  expression matches.\<close>

theorem timeHint_first_match_witness:
  "sublist ''today'' ''today or tomorrow?'' \<and> sublist ''tomorrow'' ''today or tomorrow?''
   \<and> timeHint (ruleBasedAnalyzer default_connectorRules ''today or tomorrow?'') = Some ''today''
   \<and> timeHint (ruleBasedAnalyzer default_connectorRules ''Plans for Next  Week'') = Some ''next_week''"
proof -
  have a: "sublist ''today'' ''today or tomorrow?'' \<and> sublist ''tomorrow'' ''today or tomorrow?''"
    by code_simp
  have l: "toLowerCase ''Plans for Next  Week'' = ''plans for '' @ ''next'' @ ''  '' @ ''week'' @ []"
    by code_simp
  have b: "\<not> sublist ''today'' (toLowerCase ''Plans for Next  Week'')"
    "\<not> sublist ''tomorrow'' (toLowerCase ''Plans for Next  Week'')"
    by code_simp+
  have s: "''  '' \<noteq> [] \<and> (\<forall>c\<in>set ''  ''. is_space c)"
    by (simp add: is_space_def)
  have c: "\<exists>pre ws post. toLowerCase ''Plans for Next  Week'' = pre @ ''next'' @ ws @ ''week'' @ post
                 \<and> ws \<noteq> [] \<and> (\<forall>c\<in>set ws. is_space c)"
    using l s by blast
  have t1: "timeHint (ruleBasedAnalyzer default_connectorRules ''today or tomorrow?'') = Some ''today''"
    using timeHint_first_match [of default_connectorRules "''today or tomorrow?''"] a by blast
  have "timeHint (ruleBasedAnalyzer default_connectorRules ''Plans for Next  Week'') =
     (if sublist ''today'' (toLowerCase ''Plans for Next  Week'') then Some ''today''
      else if sublist ''tomorrow'' (toLowerCase ''Plans for Next  Week'') then Some ''tomorrow''
      else if (\<exists>pre ws post. toLowerCase ''Plans for Next  Week'' = pre @ ''next'' @ ws @ ''week'' @ post
                 \<and> ws \<noteq> [] \<and> (\<forall>c\<in>set ws. is_space c))
      then Some ''next_week''
      else None)"
    using timeHint_first_match [of default_connectorRules "''Plans for Next  Week''"] by blast
  then have t2: "timeHint (ruleBasedAnalyzer default_connectorRules ''Plans for Next  Week'') = Some ''next_week''"
    using b c by (simp only: if_True if_False)
  show ?thesis
    using a t1 t2 by blast
qed

section \<open>The LLM-based and the hybrid analyzer\<close>

lemma llmAnalyzer_degrades:
  "openai q = Request_failed \<or> openai q = No_message_text \<or> openai q = Invalid_JSON
   \<Longrightarrow> llmAnalyzer openai q = JArr []"
  by (auto simp: llmAnalyzer_def)

lemma same_value_zero_eq: "same_value_zero x y \<Longrightarrow> x = y"
  by (induction x y rule: same_value_zero.induct) auto

lemma set_set_add: "set (set_add members x) = insert x (set members)"
  by (auto simp: set_add_def list_ex_iff dest: same_value_zero_eq)

lemma set_foldl_set_add: "set (foldl set_add acc xs) = set acc \<union> set xs"
  by (induction xs arbitrary: acc) (auto simp: set_set_add)

lemma set_new_Set: "set (new_Set xs) = set xs"
  by (simp add: new_Set_def set_foldl_set_add)

lemma same_value_zero_refl: "primitive x \<Longrightarrow> same_value_zero x x"
  by (cases x) (auto simp: primitive_def)

lemma distinct_set_add:
  "distinct members \<Longrightarrow> primitive x \<Longrightarrow> \<forall>m\<in>set members. primitive m \<Longrightarrow> distinct (set_add members x)"
  apply (auto simp: set_add_def list_ex_iff)
  using same_value_zero_refl by blast

lemma distinct_foldl_set_add:
  "distinct acc \<Longrightarrow> \<forall>m\<in>set acc. primitive m \<Longrightarrow> \<forall>x\<in>set xs. primitive x
   \<Longrightarrow> distinct (foldl set_add acc xs)"
proof (induction xs arbitrary: acc)
  case Nil
  then show ?case by simp
next
  case (Cons x xs)
  have "distinct (set_add acc x)"
    using Cons.prems by (intro distinct_set_add) auto
  moreover have "\<forall>m\<in>set (set_add acc x). primitive m"
    using Cons.prems by (auto simp: set_set_add)
  ultimately show ?case
    using Cons.IH Cons.prems by simp
qed

lemma distinct_new_Set: "\<forall>x\<in>set xs. primitive x \<Longrightarrow> distinct (new_Set xs)"
  by (simp add: new_Set_def distinct_foldl_set_add)

lemma connectors_ruleBasedAnalyzer_nonempty: "connectors (ruleBasedAnalyzer rules q) \<noteq> []"
  by (simp add: ruleBasedAnalyzer_def Let_def)

lemma analyzeIntent_array:
  assumes "llmAnalyzer openai q = JArr xs"
  shows "\<exists>r. analyzeIntent rules openai q = Inr r
     \<and> set (connectors r) = JStr ` set (connectors (ruleBasedAnalyzer rules q)) \<union> set xs
     \<and> connectors r \<noteq> []
     \<and> timeHint r = timeHint (ruleBasedAnalyzer rules q)"
proof -
  let ?rule = "ruleBasedAnalyzer rules q"
  let ?r = "\<lparr>connectors = new_Set (map JStr (connectors ?rule) @ xs), timeHint = timeHint ?rule\<rparr>"
  have "analyzeIntent rules openai q = Inr ?r"
    using assms by (simp add: analyzeIntent_def Let_def)
  moreover have "set (connectors ?r) = JStr ` set (connectors ?rule) \<union> set xs"
    by (simp add: set_new_Set)
  moreover have "connectors ?r \<noteq> []"
  proof -
    obtain c where "c \<in> set (connectors ?rule)"
      using connectors_ruleBasedAnalyzer_nonempty [of rules q] by (meson last_in_set)
    then have "JStr c \<in> set (connectors ?r)"
      by (simp add: set_new_Set)
    then show ?thesis by auto
  qed
  ultimately show ?thesis by auto
qed

text \<open>
  Claim C1 does not hold for a response that is JSON and not an array. When the model answers
  \<open>{"connectors": ["aws_monitor"]}\<close>, \<open>JSON.parse\<close> succeeds, \<open>llmAnalyzer\<close> returns the object
  and not an empty list, and the spread in \<open>analyzeIntent\<close> throws a \<open>TypeError\<close> outside any
  \<open>try\<close>. The three outcomes that the \<open>catch\<close> block sees do give the empty list
  (\<open>llmAnalyzer_degrades\<close>).
\<close>

theorem llmAnalyzer_returns_parsed_object:
  "llmAnalyzer (\<lambda>q. Parses_to (JObj [(''connectors'', JArr [JStr ''aws_monitor''])])) ''is the server up''
     = JObj [(''connectors'', JArr [JStr ''aws_monitor''])]
   \<and> analyzeIntent default_connectorRules
        (\<lambda>q. Parses_to (JObj [(''connectors'', JArr [JStr ''aws_monitor''])])) ''is the server up''
     = Inl TypeError"
  by (simp add: llmAnalyzer_def analyzeIntent_def Let_def)

text \<open>
  Claim C2 does not hold for the same kind of response: the rule-based analyzer finds
  \<open>github_repo\<close> and the hint \<open>today\<close>, and \<open>analyzeIntent\<close> returns no connector list at all. For
  every response that is an array the claim holds (\<open>analyzeIntent_array\<close>,
  \<open>distinct_new_Set\<close>).
\<close>

theorem analyzeIntent_no_result_for_object:
  "ruleBasedAnalyzer default_connectorRules ''any open pull request today?''
     = \<lparr>connectors = [''github_repo''], timeHint = Some ''today''\<rparr>
   \<and> analyzeIntent default_connectorRules
        (\<lambda>q. Parses_to (JObj [(''connectors'', JArr [JStr ''github_repo''])]))
        ''any open pull request today?''
     = Inl TypeError"
  by code_simp

section \<open>The fetch stage\<close>

lemma connector_fetchConnector: "connector (fetchConnector c u q h) = c"
  by (simp add: fetchConnector_def)

lemma fetch_all_connectors: "map connector (fetch_all i u q) = connectors i"
  by (simp add: fetch_all_def comp_def connector_fetchConnector)

lemma length_fetch_all: "length (fetch_all i u q) = length (connectors i)"
  by (simp add: fetch_all_def)

lemma distinct_fetch_all: "distinct (connectors i) \<Longrightarrow> distinct (fetch_all i u q)"
  by (metis fetch_all_connectors distinct_map)

lemma fetchConnector_unknown:
  assumes "c \<notin> fst ` set (data h)" and "c \<notin> set Object_prototype"
  shows "summary (fetchConnector c u q h) = Text ''No data available''"
proof -
  have "map_of (data h) c = None"
    using assms(1) by (simp add: map_of_eq_None_iff)
  then show ?thesis
    using assms(2) by (simp add: fetchConnector_def get_property_def)
qed

text \<open>
  Claim C4 does not hold for an identifier that names a member of \<open>Object.prototype\<close>:
  \<open>constructor\<close> is not a key of \<open>data\<close>, and \<open>data["constructor"]\<close> is the inherited function,
  which is truthy, so the summary is that function and not \<open>No data available\<close>. The stage does
  keep one result per connector in the order of the list (\<open>fetch_all_connectors\<close>), and every
  other unknown identifier gets the sentinel (\<open>fetchConnector_unknown\<close>).
\<close>

theorem fetchConnector_constructor:
  "''constructor'' \<notin> fst ` set (data None)
   \<and> fetchConnector ''constructor'' ''user-1'' ''anything new?'' None
       = \<lparr>connector = ''constructor'', summary = Prototype_member ''constructor''\<rparr>"
  by code_simp

section \<open>Facts about the context manager\<close>

lemma join_Cons: "join sep (x # xs) = x @ (if xs = [] then [] else sep @ join sep xs)"
  by (cases xs) simp_all

lemma infer_topics_empty_iff:
  "infer_topics q = [] \<longleftrightarrow> \<not> sublist ''deployment'' q \<and> \<not> sublist ''ML'' q"
  by (simp add: infer_topics_def str_includes_sublist)

lemma infer_topics_labels:
  "set (infer_topics q) \<subseteq> {''Continuous Deployment'', ''Machine Learning''}"
  by (auto simp: infer_topics_def)

lemma labels_not_inherited:
  "toLowerCase ''Continuous Deployment'' \<notin> set Object_prototype"
  "toLowerCase ''Machine Learning'' \<notin> set Object_prototype"
  by code_simp+

lemma collect_chunks_chunks_for:
  "\<forall>t\<in>set topics. toLowerCase t \<notin> set Object_prototype
   \<Longrightarrow> collect_chunks topics acc = Inr (acc @ chunks_for topics)"
proof (induction topics arbitrary: acc)
  case Nil
  then show ?case by (simp add: chunks_for_def)
next
  case (Cons t topics)
  then have ih: "\<And>acc. collect_chunks topics acc = Inr (acc @ chunks_for topics)"
    by simp
  have t: "toLowerCase t \<notin> set Object_prototype"
    using Cons.prems by simp
  show ?case
  proof (cases "map_of MOCK_DOC_REPO (toLowerCase t)")
    case None
    then show ?thesis
      using t ih by (simp add: get_property_def chunks_for_def topic_excerpts_def)
  next
    case (Some excerpts)
    then show ?thesis
      using t ih by (simp add: get_property_def chunks_for_def topic_excerpts_def)
  qed
qed

lemma collect_chunks_infer_topics:
  "collect_chunks (infer_topics q) [] = Inr (chunks_for (infer_topics q))"
proof -
  have "\<forall>t\<in>set (infer_topics q). toLowerCase t \<notin> set Object_prototype"
    using infer_topics_labels [of q] labels_not_inherited by auto
  then show ?thesis
    using collect_chunks_chunks_for [of "infer_topics q" "[]"] by simp
qed

lemma mockRetrieveContext_infer_topics:
  "\<exists>lines. mockRetrieveContext (infer_topics q) q con =
     Inr (\<lparr>contextText = join separator (chunks_for (infer_topics q)),
           useSearchTool = sublist ''right now'' q\<rparr>, con @ lines)
     \<and> lines \<noteq> [] \<and> no_context_warning \<notin> set lines"
  by (simp add: mockRetrieveContext_def Let_def collect_chunks_infer_topics
      str_includes_sublist no_context_warning_def)

lemma prepareContextualPrompt_no_topic:
  "infer_topics q = [] \<Longrightarrow>
   prepareContextualPrompt q con =
     Inr (\<lparr>finalPrompt = q, tools = Some [Google_search]\<rparr>, con @ [no_context_warning])"
  by (simp add: prepareContextualPrompt_def)

lemma prepareContextualPrompt_topics:
  assumes "infer_topics q \<noteq> []"
  shows "\<exists>lines. prepareContextualPrompt q con =
     Inr (\<lparr>finalPrompt = render_prompt (join separator (chunks_for (infer_topics q))) q,
           tools = (if sublist ''right now'' q then Some [Google_search] else None)\<rparr>,
          con @ lines)"
proof -
  obtain lines where "mockRetrieveContext (infer_topics q) q con =
     Inr (\<lparr>contextText = join separator (chunks_for (infer_topics q)),
           useSearchTool = sublist ''right now'' q\<rparr>, con @ lines)"
    using mockRetrieveContext_infer_topics by blast
  then show ?thesis
    using assms by (simp add: prepareContextualPrompt_def Let_def)
qed

lemma topic_excerpts_lower: "topic_excerpts (toLowerCase t) = topic_excerpts t"
  by (simp add: topic_excerpts_def toLowerCase_idem)

lemma cd_excerpts_shape:
  "length (topic_excerpts ''continuous deployment'') = 3"
  "list_all (\<lambda>e. e \<noteq> []) (topic_excerpts ''continuous deployment'')"
  "toLowerCase ''Continuous Deployment'' = ''continuous deployment''"
  unfolding topic_excerpts_def by code_simp+

lemma chunks_for_Cons: "chunks_for (t # ts) = take 2 (topic_excerpts t) @ chunks_for ts"
  by (simp add: chunks_for_def)

lemma expected_context_deployment:
  assumes "sublist ''deployment'' q"
  shows "expected_context q \<noteq> []
     \<and> (\<exists>e\<in>set (topic_excerpts ''continuous deployment''). sublist e (expected_context q))"
proof -
  let ?cd = "topic_excerpts ''continuous deployment''"
  obtain e1 e2 e3 where cd: "?cd = [e1, e2, e3]"
    using cd_excerpts_shape(1) by (auto simp: length_Suc_conv numeral_3_eq_3)
  have e1: "e1 \<noteq> []"
    using cd_excerpts_shape(2) cd by simp
  obtain more where "infer_topics q = ''Continuous Deployment'' # more"
    using assms by (simp add: infer_topics_def str_includes_sublist)
  moreover have "topic_excerpts ''Continuous Deployment'' = ?cd"
    using topic_excerpts_lower [of "''Continuous Deployment''"] cd_excerpts_shape(3) by simp
  ultimately have "chunks_for (infer_topics q) = e1 # e2 # chunks_for more"
    using cd by (simp add: chunks_for_Cons)
  then have "expected_context q = e1 @ separator @ join separator (e2 # chunks_for more)"
    by (simp add: expected_context_def)
  then have "expected_context q \<noteq> []" and "sublist e1 (expected_context q)"
    using e1 by (auto simp: sublist_def intro: exI [of _ "[]"])
  moreover have "e1 \<in> set ?cd"
    using cd by simp
  ultimately show ?thesis by blast
qed

text \<open>
  Claim C6. When no topic is inferred from the query, \<open>prepareContextualPrompt\<close> returns the
  query itself as \<open>finalPrompt\<close> with the Google Search tool descriptor. It returns before the
  retrieval: the console gains the warning only, not the line that \<open>mockRetrieveContext\<close>
  writes when it starts.
\<close>

theorem no_topic_returns_query:
  "infer_topics q = []
   \<Longrightarrow> prepareContextualPrompt q con =
         Inr (\<lparr>finalPrompt = q, tools = Some [Google_search]\<rparr>, con @ [no_context_warning])"
  by (rule prepareContextualPrompt_no_topic)

text \<open>\<open>no_topic_returns_query\<close> at the query \<open>What's the weather?\<close>.\<close>

theorem no_topic_returns_query_witness:
  "infer_topics ''What's the weather?'' = []
   \<and> prepareContextualPrompt ''What's the weather?'' [] =
         Inr (\<lparr>finalPrompt = ''What's the weather?'', tools = Some [Google_search]\<rparr>,
              [no_context_warning])"
proof -
  have h: "infer_topics ''What's the weather?'' = []"
    by code_simp
  show ?thesis
    using h no_topic_returns_query [OF h, of "[]"] by simp
qed

text \<open>
  Claim C7. For a query with an inferred topic, the loop of \<open>mockRetrieveContext\<close> collects
  the first two excerpts at most of each topic, in topic order, each topic looked up by its
  lower-cased label, and joins them with the separator; the prompt is the template with that
  context and the query in its two places. So for a query that contains \<open>deployment\<close> a topic
  is inferred, the context is not empty and contains an excerpt on continuous deployment.
\<close>

theorem retrieval_and_rendering:
  "(infer_topics q \<noteq> [] \<longrightarrow>
      (\<exists>lines. mockRetrieveContext (infer_topics q) q con =
         Inr (\<lparr>contextText = join separator (chunks_for (infer_topics q)),
               useSearchTool = sublist ''right now'' q\<rparr>, con @ lines))
      \<and> (\<exists>r con'. prepareContextualPrompt q con = Inr (r, con')
            \<and> finalPrompt r =
                template_head @ expected_context q @ template_middle @ q @ template_tail))
   \<and> (sublist ''deployment'' q \<longrightarrow>
        infer_topics q \<noteq> [] \<and> expected_context q \<noteq> []
        \<and> (\<exists>e\<in>set (topic_excerpts ''continuous deployment''). sublist e (expected_context q)))"
proof (intro conjI impI)
  show "\<exists>lines. mockRetrieveContext (infer_topics q) q con =
         Inr (\<lparr>contextText = join separator (chunks_for (infer_topics q)),
               useSearchTool = sublist ''right now'' q\<rparr>, con @ lines)"
    using mockRetrieveContext_infer_topics [of q con] by blast
next
  assume "infer_topics q \<noteq> []"
  then obtain lines where "prepareContextualPrompt q con =
     Inr (\<lparr>finalPrompt = render_prompt (join separator (chunks_for (infer_topics q))) q,
           tools = (if sublist ''right now'' q then Some [Google_search] else None)\<rparr>,
          con @ lines)"
    using prepareContextualPrompt_topics by blast
  then show "\<exists>r con'. prepareContextualPrompt q con = Inr (r, con')
            \<and> finalPrompt r =
                template_head @ expected_context q @ template_middle @ q @ template_tail"
    by (simp add: render_prompt_def expected_context_def)
next
  assume "sublist ''deployment'' q"
  then show "infer_topics q \<noteq> []"
    by (simp add: infer_topics_empty_iff)
next
  assume "sublist ''deployment'' q"
  then show "expected_context q \<noteq> []"
    using expected_context_deployment by blast
next
  assume "sublist ''deployment'' q"
  then show "\<exists>e\<in>set (topic_excerpts ''continuous deployment''). sublist e (expected_context q)"
    using expected_context_deployment by blast
qed

text \<open>\<open>retrieval_and_rendering\<close> at the query \<open>What's blocking our deployment pipeline?\<close>.\<close>

theorem retrieval_and_rendering_witness:
  "sublist ''deployment'' ''What's blocking our deployment pipeline?''
   \<and> infer_topics ''What's blocking our deployment pipeline?'' \<noteq> []
   \<and> expected_context ''What's blocking our deployment pipeline?'' \<noteq> []
   \<and> (\<exists>e\<in>set (topic_excerpts ''continuous deployment'').
         sublist e (expected_context ''What's blocking our deployment pipeline?''))
   \<and> (\<exists>r con'. prepareContextualPrompt ''What's blocking our deployment pipeline?'' [] = Inr (r, con')
         \<and> finalPrompt r =
             template_head @ expected_context ''What's blocking our deployment pipeline?''
             @ template_middle @ ''What's blocking our deployment pipeline?'' @ template_tail)"
proof -
  have h: "sublist ''deployment'' ''What's blocking our deployment pipeline?''"
    by code_simp
  show ?thesis
    using h retrieval_and_rendering [of "''What's blocking our deployment pipeline?''" "[]"]
    by blast
qed

text \<open>
  Claim C8. For a query that reaches the retrieval, \<open>useSearchTool\<close> is true exactly when the
  query contains \<open>right now\<close>, and \<open>tools\<close> is the search descriptor when \<open>useSearchTool\<close> is
  true and \<open>undefined\<close> otherwise.
\<close>

theorem search_tool_iff_right_now:
  assumes "infer_topics q \<noteq> []"
  shows "\<exists>retrieved con1 r con2.
      mockRetrieveContext (infer_topics q) q con = Inr (retrieved, con1)
      \<and> prepareContextualPrompt q con = Inr (r, con2)
      \<and> useSearchTool retrieved = sublist ''right now'' q
      \<and> tools r = (if useSearchTool retrieved then Some [Google_search] else None)"
proof -
  obtain lines where m: "mockRetrieveContext (infer_topics q) q con =
     Inr (\<lparr>contextText = join separator (chunks_for (infer_topics q)),
           useSearchTool = sublist ''right now'' q\<rparr>, con @ lines)"
    using mockRetrieveContext_infer_topics by blast
  then have "prepareContextualPrompt q con =
     Inr (\<lparr>finalPrompt = render_prompt (join separator (chunks_for (infer_topics q))) q,
           tools = (if sublist ''right now'' q then Some [Google_search] else None)\<rparr>,
          con @ lines)"
    using assms by (simp add: prepareContextualPrompt_def Let_def)
  with m show ?thesis by simp
qed

text \<open>\<open>search_tool_iff_right_now\<close> at a query with the cue and at one without it.\<close>

theorem search_tool_iff_right_now_witness:
  "infer_topics ''is the deployment healthy right now?'' \<noteq> []
   \<and> (\<exists>r con2. prepareContextualPrompt ''is the deployment healthy right now?'' [] = Inr (r, con2)
         \<and> tools r = Some [Google_search])
   \<and> infer_topics ''is the deployment healthy?'' \<noteq> []
   \<and> (\<exists>r con2. prepareContextualPrompt ''is the deployment healthy?'' [] = Inr (r, con2)
         \<and> tools r = None)"
proof -
  have h1: "infer_topics ''is the deployment healthy right now?'' \<noteq> []"
    and s1: "sublist ''right now'' ''is the deployment healthy right now?''"
    and h2: "infer_topics ''is the deployment healthy?'' \<noteq> []"
    and s2: "\<not> sublist ''right now'' ''is the deployment healthy?''"
    by code_simp+
  have a: "\<exists>r con2. prepareContextualPrompt ''is the deployment healthy right now?'' [] = Inr (r, con2)
         \<and> tools r = Some [Google_search]"
    using search_tool_iff_right_now [OF h1, of "[]"] s1 by auto
  have b: "\<exists>r con2. prepareContextualPrompt ''is the deployment healthy?'' [] = Inr (r, con2)
         \<and> tools r = None"
    using search_tool_iff_right_now [OF h2, of "[]"] s2 by auto
  show ?thesis
    using h1 h2 a b by blast
qed

text \<open>
  Claim C9. Two calls in a row with the same query, the second on the console that the first
  left, both return, with the same \<open>finalPrompt\<close> and the same \<open>tools\<close>: the result does not
  depend on the console, the only state that a call changes, and the topic table is a
  constant that no function writes.
\<close>

theorem prepareContextualPrompt_repeatable:
  "\<exists>r1 con1 r2 con2.
      prepareContextualPrompt q con = Inr (r1, con1)
      \<and> prepareContextualPrompt q con1 = Inr (r2, con2)
      \<and> finalPrompt r1 = finalPrompt r2 \<and> tools r1 = tools r2"
proof (cases "infer_topics q = []")
  case True
  then show ?thesis
    by (simp add: prepareContextualPrompt_no_topic)
next
  case False
  obtain l1 where "prepareContextualPrompt q con =
     Inr (\<lparr>finalPrompt = render_prompt (join separator (chunks_for (infer_topics q))) q,
           tools = (if sublist ''right now'' q then Some [Google_search] else None)\<rparr>,
          con @ l1)"
    using False prepareContextualPrompt_topics by blast
  moreover obtain l2 where "prepareContextualPrompt q (con @ l1) =
     Inr (\<lparr>finalPrompt = render_prompt (join separator (chunks_for (infer_topics q))) q,
           tools = (if sublist ''right now'' q then Some [Google_search] else None)\<rparr>,
          (con @ l1) @ l2)"
    using False prepareContextualPrompt_topics by blast
  ultimately show ?thesis by simp
qed


text \<open>
  Claim C10. A topic is inferred exactly when the query as typed contains \<open>deployment\<close> or
  \<open>ML\<close>; a query with neither takes the fallback and comes back unchanged. The query
  \<open>Deployment of ml models\<close> has both words in another case: no topic is inferred for it,
  while the rule-based analyzer, which lower-cases the query, selects \<open>aws_monitor\<close> on its
  trigger \<open>deployment\<close>.
\<close>

theorem topic_triggers_case_sensitive:
  "(infer_topics q \<noteq> [] \<longleftrightarrow> sublist ''deployment'' q \<or> sublist ''ML'' q)
   \<and> (\<not> sublist ''deployment'' q \<and> \<not> sublist ''ML'' q \<longrightarrow>
        prepareContextualPrompt q con =
          Inr (\<lparr>finalPrompt = q, tools = Some [Google_search]\<rparr>, con @ [no_context_warning]))
   \<and> sublist ''Deployment'' ''Deployment of ml models''
   \<and> sublist ''ml'' ''Deployment of ml models''
   \<and> prepareContextualPrompt ''Deployment of ml models'' [] =
        Inr (\<lparr>finalPrompt = ''Deployment of ml models'', tools = Some [Google_search]\<rparr>,
             [no_context_warning])
   \<and> ''aws_monitor'' \<in> set (connectors (ruleBasedAnalyzer default_connectorRules ''Deployment of ml models''))"
proof -
  have a: "infer_topics q \<noteq> [] \<longleftrightarrow> sublist ''deployment'' q \<or> sublist ''ML'' q"
    using infer_topics_empty_iff [of q] by blast
  have b: "\<not> sublist ''deployment'' q \<and> \<not> sublist ''ML'' q \<longrightarrow>
        prepareContextualPrompt q con =
          Inr (\<lparr>finalPrompt = q, tools = Some [Google_search]\<rparr>, con @ [no_context_warning])"
    using infer_topics_empty_iff [of q] prepareContextualPrompt_no_topic [of q con] by blast
  have c: "sublist ''Deployment'' ''Deployment of ml models''"
    "sublist ''ml'' ''Deployment of ml models''"
    by code_simp+
  have e: "infer_topics ''Deployment of ml models'' = []"
    by code_simp
  have d: "prepareContextualPrompt ''Deployment of ml models'' [] =
        Inr (\<lparr>finalPrompt = ''Deployment of ml models'', tools = Some [Google_search]\<rparr>,
             [no_context_warning])"
    using prepareContextualPrompt_no_topic [OF e, of "[]"] by simp
  have f: "''aws_monitor'' \<in> set (connectors (ruleBasedAnalyzer default_connectorRules ''Deployment of ml models''))"
    by code_simp
  show ?thesis
    using a b c d f by blast
qed

text \<open>\<open>topic_triggers_case_sensitive\<close> at a query with a topic and at one without.\<close>

theorem topic_triggers_case_sensitive_witness:
  "infer_topics ''ML deployment'' \<noteq> []
   \<and> (sublist ''deployment'' ''ML deployment'' \<or> sublist ''ML'' ''ML deployment'')
   \<and> \<not> sublist ''deployment'' ''DEPLOYMENT of Ml'' \<and> \<not> sublist ''ML'' ''DEPLOYMENT of Ml''
   \<and> prepareContextualPrompt ''DEPLOYMENT of Ml'' [] =
          Inr (\<lparr>finalPrompt = ''DEPLOYMENT of Ml'', tools = Some [Google_search]\<rparr>,
               [no_context_warning])"
proof -
  have h: "infer_topics ''ML deployment'' \<noteq> []"
    and n: "\<not> sublist ''deployment'' ''DEPLOYMENT of Ml'' \<and> \<not> sublist ''ML'' ''DEPLOYMENT of Ml''"
    by code_simp+
  have "sublist ''deployment'' ''ML deployment'' \<or> sublist ''ML'' ''ML deployment''"
    using h topic_triggers_case_sensitive [of "''ML deployment''" "[]"] by blast
  moreover have "prepareContextualPrompt ''DEPLOYMENT of Ml'' [] =
          Inr (\<lparr>finalPrompt = ''DEPLOYMENT of Ml'', tools = Some [Google_search]\<rparr>,
               [no_context_warning])"
    using n topic_triggers_case_sensitive [of "''DEPLOYMENT of Ml''" "[]"] by simp
  ultimately show ?thesis
    using h n by blast
qed

end
